theory Spec2Isabelle
  imports Main "HOL-Library.Word"
begin

section \<open>Python values used by NTLMRawUnHide.py\<close>

text \<open>
  A Python \<open>bytes\<close> object is a list of 8-bit words, a Python \<open>int\<close> is an \<open>int\<close>,
  and a Python \<open>str\<close> is the list of its Unicode code points.  A string literal of the
  script is written \<open>lit ''...''\<close>.
\<close>

type_synonym byte = "8 word"
type_synonym bytes = "byte list"
type_synonym pystr = "nat list"

definition lit :: "string \<Rightarrow> pystr" where
  "lit s = map of_char s"

datatype error = UnicodeDecodeError | NameError

subsection \<open>Slicing and searching\<close>

text \<open>
  Python adjusts the bounds of \<open>b[i:j]\<close> before reading: a negative bound counts from the
  end, and every bound is clamped into \<open>0 .. len(b)\<close>.  A slice never raises.
\<close>

definition adjust_index :: "nat \<Rightarrow> int \<Rightarrow> nat" where
  "adjust_index n i = (if i < 0 then nat (int n + i) else min n (nat i))"

definition slice :: "'a list \<Rightarrow> int \<Rightarrow> int \<Rightarrow> 'a list" where
  "slice xs i j =
     (let lo = adjust_index (length xs) i; hi = adjust_index (length xs) j
      in take (hi - lo) (drop lo xs))"

text \<open>
  \<open>b.find(sub, start, end)\<close>: the lowest index \<open>i\<close> with \<open>start \<le> i\<close>,
  \<open>i + len(sub) \<le> end\<close> and \<open>b[i:i+len(sub)] == sub\<close>, the bounds adjusted as for a
  slice (the start is not clamped from above); \<open>-1\<close> when there is none.
  \<open>find_scan sub xs i k\<close> tries the \<open>k\<close> candidate positions \<open>i, i+1, ...\<close> in order.
\<close>

fun find_scan :: "'a list \<Rightarrow> 'a list \<Rightarrow> nat \<Rightarrow> nat \<Rightarrow> int" where
  "find_scan sub xs i 0 = -1"
| "find_scan sub xs i (Suc k) =
     (if take (length sub) (drop i xs) = sub then int i else find_scan sub xs (Suc i) k)"

definition find3 :: "'a list \<Rightarrow> 'a list \<Rightarrow> int \<Rightarrow> int \<Rightarrow> int" where
  "find3 xs sub start end =
     (let n = length xs;
          lo = (if start < 0 then nat (int n + start) else nat start);
          hi = adjust_index n end
      in if lo + length sub \<le> hi then find_scan sub xs lo (Suc (hi - (lo + length sub))) else -1)"

definition find2 :: "'a list \<Rightarrow> 'a list \<Rightarrow> int \<Rightarrow> int" where
  "find2 xs sub start = find3 xs sub start (int (length xs))"

subsection \<open>Integers, hexadecimal and text\<close>

text \<open>\<open>int.from_bytes(b, 'little')\<close>; the empty string gives 0.\<close>

fun decode_int :: "bytes \<Rightarrow> int" where
  "decode_int [] = 0"
| "decode_int (b # bs) = uint b + 256 * decode_int bs"

text \<open>\<open>bytes.hex()\<close>: two lower-case hexadecimal digits for each byte.\<close>

definition hex_digit :: "nat \<Rightarrow> nat" where
  "hex_digit d = (if d < 10 then 48 + d else 87 + d)"

definition hex :: "bytes \<Rightarrow> pystr" where
  "hex bs = concat (map (\<lambda>b. [hex_digit (unat b div 16), hex_digit (unat b mod 16)]) bs)"

text \<open>
  \<open>bytes.decode('UTF-8')\<close> with the default error handler \<open>strict\<close>: every ill-formed
  sequence (a stray continuation byte, an over-long form, a surrogate, a code point above
  U+10FFFF, a truncated sequence) raises \<open>UnicodeDecodeError\<close>.  \<open>cont b\<close> is the payload
  of a continuation byte.
\<close>

definition is_cont :: "byte \<Rightarrow> bool" where
  "is_cont b = (0x80 \<le> b \<and> b \<le> 0xBF)"

definition cont :: "byte \<Rightarrow> nat" where
  "cont b = unat b - 0x80"

fun utf8_decode :: "bytes \<Rightarrow> error + pystr" where
  "utf8_decode [] = Inr []"
| "utf8_decode (b0 # bs) =
     (if b0 < 0x80 then
        (case utf8_decode bs of Inl e \<Rightarrow> Inl e | Inr cs \<Rightarrow> Inr (unat b0 # cs))
      else if 0xC2 \<le> b0 \<and> b0 \<le> 0xDF then
        (case bs of
           b1 # r \<Rightarrow>
             if is_cont b1 then
               (case utf8_decode r of Inl e \<Rightarrow> Inl e
                | Inr cs \<Rightarrow> Inr (((unat b0 - 0xC0) * 64 + cont b1) # cs))
             else Inl UnicodeDecodeError
         | _ \<Rightarrow> Inl UnicodeDecodeError)
      else if 0xE0 \<le> b0 \<and> b0 \<le> 0xEF then
        (case bs of
           b1 # b2 # r \<Rightarrow>
             if is_cont b1 \<and> is_cont b2 \<and> (if b0 = 0xE0 then 0xA0 \<le> b1 else True)
                \<and> (if b0 = 0xED then b1 \<le> 0x9F else True) then
               (case utf8_decode r of Inl e \<Rightarrow> Inl e
                | Inr cs \<Rightarrow> Inr (((unat b0 - 0xE0) * 4096 + cont b1 * 64 + cont b2) # cs))
             else Inl UnicodeDecodeError
         | _ \<Rightarrow> Inl UnicodeDecodeError)
      else if 0xF0 \<le> b0 \<and> b0 \<le> 0xF4 then
        (case bs of
           b1 # b2 # b3 # r \<Rightarrow>
             if is_cont b1 \<and> is_cont b2 \<and> is_cont b3 \<and> (if b0 = 0xF0 then 0x90 \<le> b1 else True)
                \<and> (if b0 = 0xF4 then b1 \<le> 0x8F else True) then
               (case utf8_decode r of Inl e \<Rightarrow> Inl e
                | Inr cs \<Rightarrow>
                    Inr (((unat b0 - 0xF0) * 262144 + cont b1 * 4096 + cont b2 * 64 + cont b3) # cs))
             else Inl UnicodeDecodeError
         | _ \<Rightarrow> Inl UnicodeDecodeError)
      else Inl UnicodeDecodeError)"

text \<open>\<open>decode_string\<close> of the script: decode as UTF-8, then delete every NUL character.\<close>

definition decode_string :: "bytes \<Rightarrow> error + pystr" where
  "decode_string byte_string =
     (case utf8_decode byte_string of
        Inl e \<Rightarrow> Inl e
      | Inr s \<Rightarrow> Inr (filter (\<lambda>c. c \<noteq> 0) s))"

text \<open>\<open>str(n)\<close> for a Python integer: decimal digits, with a minus sign when negative.\<close>

fun digits10 :: "nat \<Rightarrow> pystr" where
  "digits10 n = (if n < 10 then [48 + n] else digits10 (n div 10) @ [48 + n mod 10])"

definition str_int :: "int \<Rightarrow> pystr" where
  "str_int i = (if i < 0 then 45 # digits10 (nat (- i)) else digits10 (nat i))"

text \<open>\<open>esc s\<close> is the literal \<open>"\033" + s\<close>: an escape character and the text after it.\<close>

definition esc :: "string \<Rightarrow> pystr" where
  "esc s = 27 # lit s"

section \<open>The program state\<close>

text \<open>
  What one call of \<open>searchCaptureFile\<close> reads and writes: its local variables \<open>offset\<close>
  and \<open>server_challenge\<close> (\<open>None\<close> is Python's \<open>None\<close>), the texts written to standard
  output, one list element for each call of \<open>print\<close> (without the newline that ends
  it), and the contents of the files of the file system, by path.
  An exception leaves the function; the outcome \<open>Inl (e, s)\<close> keeps the state \<open>s\<close>
  reached when \<open>e\<close> was raised.
\<close>

record state =
  offset :: int
  server_challenge :: "bytes option"
  stdout :: "pystr list"
  files :: "pystr \<rightharpoonup> pystr"

type_synonym outcome = "(error \<times> state) + state"

definition and_then :: "outcome \<Rightarrow> (state \<Rightarrow> outcome) \<Rightarrow> outcome" where
  "and_then r f = (case r of Inl e \<Rightarrow> Inl e | Inr s \<Rightarrow> f s)"

text \<open>\<open>print(a, b, ...)\<close> writes its arguments separated by single spaces.\<close>

fun join_args :: "pystr list \<Rightarrow> pystr" where
  "join_args [] = []"
| "join_args [a] = a"
| "join_args (a # b # r) = a @ 32 # join_args (b # r)"

definition print :: "pystr list \<Rightarrow> state \<Rightarrow> state" where
  "print args s = s\<lparr>stdout := stdout s @ [join_args args]\<rparr>"

text \<open>
  \<open>print(label, decode_string(field), '\033[0;37m')\<close>: the arguments are evaluated
  first, so a decoding error is raised before anything is written.
\<close>

definition print_decoded :: "pystr \<Rightarrow> bytes \<Rightarrow> state \<Rightarrow> outcome" where
  "print_decoded label field s =
     (case decode_string field of
        Inl e \<Rightarrow> Inl (e, s)
      | Inr t \<Rightarrow> Inr (print [label, t, esc ''[0;37m''] s))"

text \<open>
  \<open>writeOutfile\<close>: open the file for appending (creating it when absent), write the
  text and a newline, close.  Failures of the operating system are not modelled.
\<close>

definition writeOutfile :: "pystr \<Rightarrow> pystr \<Rightarrow> state \<Rightarrow> state" where
  "writeOutfile output outstr s =
     s\<lparr>files := (files s)(output \<mapsto>
          (case files s output of None \<Rightarrow> [] | Some old \<Rightarrow> old) @ (outstr @ lit [CHR 0x0A]))\<rparr>"

section \<open>searchCaptureFile\<close>

subsection \<open>Message signatures\<close>

definition ntlmssp_sig :: bytes where
  "ntlmssp_sig = [0x4e, 0x54, 0x4c, 0x4d, 0x53, 0x53, 0x50, 0x00]"

definition ntlmssp_type_1 :: bytes where
  "ntlmssp_type_1 = [0x4e, 0x54, 0x4c, 0x4d, 0x53, 0x53, 0x50, 0x00, 0x01, 0x00, 0x00, 0x00]"

definition ntlmssp_type_2 :: bytes where
  "ntlmssp_type_2 = [0x4e, 0x54, 0x4c, 0x4d, 0x53, 0x53, 0x50, 0x00, 0x02, 0x00, 0x00, 0x00]"

definition ntlmssp_type_3 :: bytes where
  "ntlmssp_type_3 = [0x4e, 0x54, 0x4c, 0x4d, 0x53, 0x53, 0x50, 0x00, 0x03, 0x00, 0x00, 0x00]"

subsection \<open>The fields of a Type 3 message at offset \<open>off\<close>\<close>

definition domain_length :: "bytes \<Rightarrow> int \<Rightarrow> int" where
  "domain_length readbuff off = decode_int (slice readbuff (off + 28) (off + 28 + 2))"

definition domain_offset :: "bytes \<Rightarrow> int \<Rightarrow> int" where
  "domain_offset readbuff off =
     decode_int (slice readbuff (off + 28 + 2 + 2) (off + 28 + 2 + 2 + 4))"

definition domain :: "bytes \<Rightarrow> int \<Rightarrow> bytes" where
  "domain readbuff off =
     slice readbuff (off + domain_offset readbuff off)
       (off + domain_offset readbuff off + domain_length readbuff off)"

definition username_length :: "bytes \<Rightarrow> int \<Rightarrow> int" where
  "username_length readbuff off = decode_int (slice readbuff (off + 36) (off + 36 + 2))"

definition username_offset :: "bytes \<Rightarrow> int \<Rightarrow> int" where
  "username_offset readbuff off =
     decode_int (slice readbuff (off + 36 + 2 + 2) (off + 36 + 2 + 2 + 4))"

definition username :: "bytes \<Rightarrow> int \<Rightarrow> bytes" where
  "username readbuff off =
     slice readbuff (off + username_offset readbuff off)
       (off + username_offset readbuff off + username_length readbuff off)"

definition workstation_length :: "bytes \<Rightarrow> int \<Rightarrow> int" where
  "workstation_length readbuff off =
     decode_int (slice readbuff (off + 44) (off + 44 + 2))"

definition workstation_offset :: "bytes \<Rightarrow> int \<Rightarrow> int" where
  "workstation_offset readbuff off =
     decode_int (slice readbuff (off + 44 + 2 + 2) (off + 44 + 2 + 2 + 4))"

definition workstation :: "bytes \<Rightarrow> int \<Rightarrow> bytes" where
  "workstation readbuff off =
     slice readbuff (off + workstation_offset readbuff off)
       (off + workstation_offset readbuff off + workstation_length readbuff off)"

definition ntlm_length :: "bytes \<Rightarrow> int \<Rightarrow> int" where
  "ntlm_length readbuff off = decode_int (slice readbuff (off + 20) (off + 20 + 2))"

definition ntlm_offset :: "bytes \<Rightarrow> int \<Rightarrow> int" where
  "ntlm_offset readbuff off =
     decode_int (slice readbuff (off + 20 + 2 + 2) (off + 20 + 2 + 2 + 4))"

definition ntproofstr :: "bytes \<Rightarrow> int \<Rightarrow> bytes" where
  "ntproofstr readbuff off =
     slice readbuff (off + ntlm_offset readbuff off)
       (off + ntlm_offset readbuff off + 16)"

definition ntlmv2_response :: "bytes \<Rightarrow> int \<Rightarrow> bytes" where
  "ntlmv2_response readbuff off =
     slice readbuff (off + ntlm_offset readbuff off + 16)
       (off + ntlm_offset readbuff off + ntlm_length readbuff off)"

subsection \<open>The three message branches of the loop body\<close>

text \<open>Type 1 (lines 117 to 124): a report only.\<close>

definition type1_branch :: "bool \<Rightarrow> bool \<Rightarrow> state \<Rightarrow> state" where
  "type1_branch verbose quiet s =
     (if \<not> quiet then
        print []
          (if verbose then
             print [esc ''[1;37mFound NTLMSSP Message Type 1 :'' @ esc ''[1;32m Negotiation''
                      @ esc ''[0;37m    '' @ esc ''[1;30m>'' @ esc ''[0;37m Offset'',
                    str_int (offset s), esc ''[0;37m''] s
           else
             print [esc ''[1;37mFound NTLMSSP Message Type 1 :'' @ esc ''[1;32m Negotiation''
                      @ esc ''[0;37m''] s)
      else s)"

text \<open>Type 2 (lines 129 to 141): the challenge is stored first, then reported.\<close>

definition type2_branch :: "bytes \<Rightarrow> bool \<Rightarrow> bool \<Rightarrow> state \<Rightarrow> state" where
  "type2_branch readbuff verbose quiet s =
     (let challenge = slice readbuff (offset s + 24) (offset s + 32);
          s1 = s\<lparr>server_challenge := Some challenge\<rparr>
      in if \<not> quiet then
           print []
             (print [lit ''    '' @ esc ''[1;34m>'' @ esc ''[1;37m Server Challenge       :''
                       @ esc ''[0;97m'', hex challenge, esc ''[0;37m'']
                (if verbose then
                   print [esc ''[1;37mFound NTLMSSP Message Type 2 :''
                            @ esc ''[1;32m Challenge      '' @ esc ''[1;30m>''
                            @ esc ''[0;37m Offset'', str_int (offset s), esc ''[0;37m''] s1
                 else
                   print [esc ''[1;37mFound NTLMSSP Message Type 2 :'' @ esc ''[1;32m Challenge''
                            @ esc ''[0;37m''] s1))
         else s1)"

text \<open>Type 3 (lines 146 to 254), in the order of the source.\<close>

definition type3_header :: "bool \<Rightarrow> bool \<Rightarrow> state \<Rightarrow> state" where
  "type3_header verbose quiet s =
     (if \<not> quiet then
        (if verbose then
           print [esc ''[1;37mFound NTLMSSP Message Type 3 :'' @ esc ''[1;32m Authentication ''
                    @ esc ''[1;30m>'' @ esc ''[0;37m Offset'', str_int (offset s), esc ''[0;37m''] s
         else
           print [esc ''[1;37mFound NTLMSSP Message Type 3 :'' @ esc ''[1;32m Authentication''
                    @ esc ''[0;37m''] s)
      else s)"

definition type3_domain :: "bytes \<Rightarrow> bool \<Rightarrow> bool \<Rightarrow> state \<Rightarrow> outcome" where
  "type3_domain readbuff verbose quiet s =
     (if \<not> quiet then
        and_then
          (print_decoded (lit ''    '' @ esc ''[1;34m>'' @ esc ''[1;37m Domain                 :''
                            @ esc ''[0;97m'') (domain readbuff (offset s)) s)
          (\<lambda>s1. Inr
             (if verbose then
                print []
                  (print [lit ''      Domain offset          :'',
                          str_int (domain_offset readbuff (offset s))]
                     (print [lit ''      Domain length          :'',
                             str_int (domain_length readbuff (offset s))] s1))
              else s1))
      else Inr s)"

definition type3_username :: "bytes \<Rightarrow> bool \<Rightarrow> bool \<Rightarrow> state \<Rightarrow> outcome" where
  "type3_username readbuff verbose quiet s =
     (if \<not> quiet then
        and_then
          (print_decoded (lit ''    '' @ esc ''[1;34m>'' @ esc ''[1;37m Username               :''
                            @ esc ''[0;97m'') (username readbuff (offset s)) s)
          (\<lambda>s1. Inr
             (if verbose then
                print []
                  (print [lit ''      Username offset        :'',
                          str_int (username_offset readbuff (offset s))]
                     (print [lit ''      Username length        :'',
                             str_int (username_length readbuff (offset s))] s1))
              else s1))
      else Inr s)"

definition type3_workstation :: "bytes \<Rightarrow> bool \<Rightarrow> bool \<Rightarrow> state \<Rightarrow> outcome" where
  "type3_workstation readbuff verbose quiet s =
     (if \<not> quiet then
        and_then
          (print_decoded (lit ''    '' @ esc ''[1;34m>'' @ esc ''[1;37m Workstation            :''
                            @ esc ''[0;97m'') (workstation readbuff (offset s)) s)
          (\<lambda>s1. Inr
             (if verbose then
                print []
                  (print [lit ''      Workstation offset     :'',
                          str_int (workstation_offset readbuff (offset s))]
                     (print [lit ''      Workstation length     :'',
                             str_int (workstation_length readbuff (offset s))] s1))
              else s1))
      else Inr s)"

definition type3_ntlm :: "bytes \<Rightarrow> bool \<Rightarrow> bool \<Rightarrow> state \<Rightarrow> state" where
  "type3_ntlm readbuff verbose quiet s =
     (if \<not> quiet then
        print []
          (if verbose then
             print [lit ''    '' @ esc ''[1;34m>'' @ esc ''[1;37m NTLMv2 Response        :''
                      @ esc ''[0;37m'', hex (ntlmv2_response readbuff (offset s))]
               (print [lit ''    '' @ esc ''[1;34m>'' @ esc ''[1;37m NTProofStr             :''
                         @ esc ''[0;37m'', hex (ntproofstr readbuff (offset s))]
                  (print [lit ''      NTLM offset            :'',
                          str_int (ntlm_offset readbuff (offset s))]
                     (print [lit ''      NTLM length            :'',
                             str_int (ntlm_length readbuff (offset s))] s)))
           else s)
      else s)"

text \<open>
  The two shapes of \<open>hash_out\<close> (lines 236 and 242).  Python evaluates the operands from
  left to right; the first decoding error is the one raised.
\<close>

definition hash_out_user :: "bytes \<Rightarrow> int \<Rightarrow> bytes \<Rightarrow> error + pystr" where
  "hash_out_user readbuff off challenge =
     (case decode_string (username readbuff off) of
        Inl e \<Rightarrow> Inl e
      | Inr u \<Rightarrow>
          (case decode_string (workstation readbuff off) of
             Inl e \<Rightarrow> Inl e
           | Inr w \<Rightarrow>
               Inr (u @ lit ''::'' @ w @ lit '':'' @ hex challenge @ lit '':''
                      @ hex (ntproofstr readbuff off) @ lit '':''
                      @ hex (ntlmv2_response readbuff off))))"

definition hash_out_domain :: "bytes \<Rightarrow> int \<Rightarrow> bytes \<Rightarrow> error + pystr" where
  "hash_out_domain readbuff off challenge =
     (case decode_string (domain readbuff off) of
        Inl e \<Rightarrow> Inl e
      | Inr d \<Rightarrow>
          (case hash_out_user readbuff off challenge of
             Inl e \<Rightarrow> Inl e
           | Inr rest \<Rightarrow> Inr (d @ lit [CHR 0x5C] @ rest)))"

text \<open>
  Lines 228 to 254.  In the branch for a domain of length 0 the script passes the name
  \<open>output\<close> to \<open>writeOutfile\<close>; no variable of that name exists in \<open>searchCaptureFile\<close>
  or at module level, so evaluating it raises \<open>NameError\<close>, after the hash was printed.
\<close>

definition type3_hash :: "bytes \<Rightarrow> pystr \<Rightarrow> bool \<Rightarrow> state \<Rightarrow> outcome" where
  "type3_hash readbuff outfile quiet s =
     (case server_challenge s of
        Some challenge \<Rightarrow>
          (let s1 = (if \<not> quiet then print [esc ''[1;37mNTLMv2 Hash recovered:'' @ esc ''[0;97m''] s
                     else s)
           in and_then
                (if ntlm_length readbuff (offset s) = 0 then
                   Inr (if \<not> quiet then
                          print [esc ''[0;37mNTLM NULL session found... no hash to generate''
                                   @ esc ''[0;37m''] s1
                        else s1)
                 else if domain_length readbuff (offset s) = 0 then
                   (case hash_out_user readbuff (offset s) challenge of
                      Inl e \<Rightarrow> Inl (e, s1)
                    | Inr hash_out \<Rightarrow>
                        (let s2 = print [hash_out] s1
                         in if outfile \<noteq> [] then Inl (NameError, s2) else Inr s2))
                 else
                   (case hash_out_domain readbuff (offset s) challenge of
                      Inl e \<Rightarrow> Inl (e, s1)
                    | Inr hash_out \<Rightarrow>
                        (let s2 = print [hash_out] s1
                         in Inr (if outfile \<noteq> [] then writeOutfile outfile hash_out s2 else s2))))
                (\<lambda>s3. Inr ((print [] s3)\<lparr>server_challenge := None\<rparr>)))
      | None \<Rightarrow>
          Inr (if \<not> quiet then
                 print []
                   (print [esc ''[1;31mServer Challenge not found... can't create crackable hash :-/''
                             @ esc ''[0;37m''] s)
               else s))"

definition type3_branch :: "bytes \<Rightarrow> pystr \<Rightarrow> bool \<Rightarrow> bool \<Rightarrow> state \<Rightarrow> outcome" where
  "type3_branch readbuff outfile verbose quiet s =
     and_then (type3_domain readbuff verbose quiet (type3_header verbose quiet s))
       (\<lambda>s1. and_then (type3_username readbuff verbose quiet s1)
          (\<lambda>s2. and_then (type3_workstation readbuff verbose quiet s2)
             (\<lambda>s3. type3_hash readbuff outfile quiet (type3_ntlm readbuff verbose quiet s3))))"

subsection \<open>The scanning loop\<close>

text \<open>
  Lines 107 to 110, the head of the loop body: step past the signature found before
  unless \<open>offset\<close> is 0, then search for the next signature.  The result is the new
  value of \<open>offset\<close>.
\<close>

definition advance :: "bytes \<Rightarrow> int \<Rightarrow> int" where
  "advance readbuff off =
     find2 readbuff ntlmssp_sig (if off \<noteq> 0 then off + int (length ntlmssp_sig) else off)"

text \<open>
  One iteration of \<open>while offset != -1\<close> (lines 103 to 254): the new offset, then the
  three tests of the message type at that place, each followed by its branch.
\<close>

definition loop_body :: "bytes \<Rightarrow> pystr \<Rightarrow> bool \<Rightarrow> bool \<Rightarrow> state \<Rightarrow> outcome" where
  "loop_body readbuff outfile verbose quiet s =
     (let s2 = s\<lparr>offset := advance readbuff (offset s)\<rparr>;
          s3 = (if find3 readbuff ntlmssp_type_1 (offset s2)
                     (offset s2 + int (length ntlmssp_type_1)) > -1
                then type1_branch verbose quiet s2 else s2);
          s4 = (if find3 readbuff ntlmssp_type_2 (offset s3)
                     (offset s3 + int (length ntlmssp_type_2)) > -1
                then type2_branch readbuff verbose quiet s3 else s3)
      in if find3 readbuff ntlmssp_type_3 (offset s4)
              (offset s4 + int (length ntlmssp_type_3)) > -1
         then type3_branch readbuff outfile verbose quiet s4 else Inr s4)"

text \<open>
  The loop may run forever, so it is a partial function: \<open>None\<close> means that it never
  leaves the loop, \<open>Some (Inl (e, s))\<close> that exception \<open>e\<close> ended it in state \<open>s\<close>, and
  \<open>Some (Inr s)\<close> that it ran to the end.
\<close>

partial_function (option) while_loop ::
  "bytes \<Rightarrow> pystr \<Rightarrow> bool \<Rightarrow> bool \<Rightarrow> state \<Rightarrow> outcome option" where
  "while_loop readbuff outfile verbose quiet s =
     (if offset s \<noteq> -1 then
        (case loop_body readbuff outfile verbose quiet s of
           Inl e \<Rightarrow> Some (Inl e)
         | Inr s' \<Rightarrow> while_loop readbuff outfile verbose quiet s')
      else Some (Inr s))"

text \<open>
  One pass of \<open>searchCaptureFile\<close> with \<open>follow == False\<close>: \<open>readbuff\<close> is the content read
  from the input file, \<open>offset0\<close> the parameter \<open>offset\<close> (0 when called from \<open>main\<close>),
  \<open>fs\<close> the files present before the call.
\<close>

definition searchCaptureFile ::
  "bytes \<Rightarrow> pystr \<Rightarrow> bool \<Rightarrow> bool \<Rightarrow> int \<Rightarrow> (pystr \<rightharpoonup> pystr) \<Rightarrow> outcome option" where
  "searchCaptureFile readbuff outfile verbose quiet offset0 fs =
     while_loop readbuff outfile verbose quiet
       \<lparr>offset = offset0, server_challenge = None, stdout = [], files = fs\<rparr>"

section \<open>Concrete inputs\<close>

text \<open>
  The buffer of the specification's scenario: a Type 2 message at offset 0 whose challenge
  (bytes 24 to 31) is \<open>01 .. 08\<close>, padded to 100 bytes, and a Type 3 message at offset 100
  with an NTLM response of length 26 at +76, a domain of length 0, the user name \<open>bob\<close> at
  +64 and the workstation \<open>WS1\<close> at +70, both in UTF-16LE, the response being 16 bytes
  \<open>AA\<close> and 10 bytes \<open>BB\<close>.
\<close>

definition type2_message :: bytes where
  "type2_message =
     ntlmssp_type_2 @ replicate 12 0 @ [1, 2, 3, 4, 5, 6, 7, 8] @ replicate 68 0"

definition type3_message :: bytes where
  "type3_message =
     ntlmssp_type_3 @ replicate 8 0
       @ [0x1A, 0, 0x1A, 0, 0x4C, 0, 0, 0]
       @ [0, 0, 0, 0, 0x40, 0, 0, 0]
       @ [6, 0, 6, 0, 0x40, 0, 0, 0]
       @ [6, 0, 6, 0, 0x46, 0, 0, 0]
       @ replicate 12 0
       @ [0x62, 0, 0x6F, 0, 0x62, 0]
       @ [0x57, 0, 0x53, 0, 0x31, 0]
       @ replicate 16 0xAA @ replicate 10 0xBB"

definition spec_buffer :: bytes where
  "spec_buffer = type2_message @ type3_message"

text \<open>The same two messages behind one leading byte, at offsets 1 and 101.\<close>

definition shifted_buffer :: bytes where
  "shifted_buffer = 0 # spec_buffer"

definition spec_record :: pystr where
  "spec_record =
     lit ''bob::WS1:0102030405060708:aaaaaaaaaaaaaaaaaaaaaaaaaaaaaaaa:bbbbbbbbbbbbbbbbbbbb''"






definition short_response_message :: bytes where
  "short_response_message =
     [0x4e, 0x54, 0x4c, 0x4d, 0x53, 0x53, 0x50, 0x00, 0x03, 0x00, 0x00, 0x00,
      0, 0, 0, 0, 0, 0, 0, 0,
      4, 0, 4, 0, 0x4C, 0, 0, 0,
      0, 0, 0, 0, 0x40, 0, 0, 0,
      6, 0, 6, 0, 0x40, 0, 0, 0,
      6, 0, 6, 0, 0x46, 0, 0, 0,
      0, 0, 0, 0, 0, 0, 0, 0, 0, 0, 0, 0,
      0x62, 0, 0x6F, 0, 0x62, 0,
      0x57, 0, 0x53, 0, 0x31, 0,
      0xAA, 0xAA, 0xAA, 0xAA, 0xAA, 0xAA, 0xAA, 0xAA,
      0xAA, 0xAA, 0xAA, 0xAA, 0xAA, 0xAA, 0xAA, 0xAA,
      0xBB, 0xBB, 0xBB, 0xBB, 0xBB, 0xBB, 0xBB, 0xBB, 0xBB, 0xBB]"

definition short_response_buffer :: bytes where
  "short_response_buffer = 0 # type2_message @ short_response_message"






text \<open>The heads of two Type 1 messages, one directly after the other.\<close>

definition back_to_back :: bytes where
  "back_to_back = ntlmssp_type_1 @ ntlmssp_type_1"

section \<open>Properties of the library functions\<close>

lemma slice_nonneg:
  "0 \<le> i \<Longrightarrow> i \<le> j \<Longrightarrow> slice xs i j = take (nat (j - i)) (drop (nat i) xs)"
  by (auto simp: slice_def adjust_index_def Let_def min_def nat_diff_distrib)

lemma slice_empty: "j \<le> i \<Longrightarrow> 0 \<le> j \<Longrightarrow> slice xs i j = []"
  by (auto simp: slice_def adjust_index_def Let_def min_def)


lemma length_slice: "0 \<le> i \<Longrightarrow> i \<le> j \<Longrightarrow> length (slice xs i j) = min (nat (j - i)) (length xs - nat i)"
  by (simp add: slice_nonneg)

lemma find_scan_result:
  "find_scan sub xs i k = -1 \<or>
   (\<exists>p. find_scan sub xs i k = int p \<and> i \<le> p \<and> p < i + k \<and> take (length sub) (drop p xs) = sub)"
proof (induction k arbitrary: i)
  case 0
  then show ?case by simp
next
  case (Suc k)
  show ?case
  proof (cases "take (length sub) (drop i xs) = sub")
    case True
    then show ?thesis by auto
  next
    case False
    with Suc.IH [of "Suc i"] show ?thesis by auto
  qed
qed

lemma find_scan_least:
  "find_scan sub xs i k = int p \<Longrightarrow> i \<le> q \<Longrightarrow> q < p \<Longrightarrow> take (length sub) (drop q xs) \<noteq> sub"
proof (induction k arbitrary: i)
  case 0
  then show ?case by simp
next
  case (Suc k)
  show ?case
  proof (cases "take (length sub) (drop i xs) = sub")
    case True
    with Suc.prems show ?thesis by simp
  next
    case False
    show ?thesis
    proof (cases "q = i")
      case True
      with False show ?thesis by simp
    next
      case neq: False
      from False Suc.prems(1) have "find_scan sub xs (Suc i) k = int p" by simp
      from Suc.IH [OF this] neq Suc.prems show ?thesis by simp
    qed
  qed
qed

lemma find_scan_none:
  "find_scan sub xs i k = -1 \<Longrightarrow> i \<le> q \<Longrightarrow> q < i + k \<Longrightarrow> take (length sub) (drop q xs) \<noteq> sub"
proof (induction k arbitrary: i)
  case 0
  then show ?case by simp
next
  case (Suc k)
  show ?case
  proof (cases "take (length sub) (drop i xs) = sub")
    case True
    with Suc.prems show ?thesis by simp
  next
    case False
    show ?thesis
    proof (cases "q = i")
      case True
      with False show ?thesis by simp
    next
      case neq: False
      from False Suc.prems(1) have "find_scan sub xs (Suc i) k = -1" by simp
      from Suc.IH [OF this] neq Suc.prems show ?thesis by simp
    qed
  qed
qed

lemma find2_nonneg:
  "0 \<le> start \<Longrightarrow> find2 xs sub start =
     (if nat start + length sub \<le> length xs
      then find_scan sub xs (nat start) (Suc (length xs - (nat start + length sub))) else -1)"
  by (simp add: find2_def find3_def adjust_index_def Let_def)

lemma find2_result:
  assumes "0 \<le> start"
  shows "find2 xs sub start = -1 \<or>
    (\<exists>p. find2 xs sub start = int p \<and> nat start \<le> p \<and> p + length sub \<le> length xs
          \<and> take (length sub) (drop p xs) = sub)"
proof (cases "nat start + length sub \<le> length xs")
  case True
  with find_scan_result [of sub xs "nat start" "Suc (length xs - (nat start + length sub))"]
  show ?thesis using assms by (auto simp: find2_nonneg)
next
  case False
  then show ?thesis using assms by (simp add: find2_nonneg)
qed

lemma type_check:
  assumes "0 \<le> off" "length t = 12"
  shows "(find3 xs t off (off + int (length t)) > -1) = (take 12 (drop (nat off) xs) = t)"
proof (cases "nat off + 12 \<le> length xs")
  case True
  then show ?thesis using assms
    by (auto simp: find3_def adjust_index_def Let_def min_def nat_add_distrib)
next
  case False
  then have "length (take 12 (drop (nat off) xs)) < 12" by simp
  then have "take 12 (drop (nat off) xs) \<noteq> t" using assms(2) by auto
  then show ?thesis using assms False
    by (auto simp: find3_def adjust_index_def Let_def min_def nat_add_distrib)
qed

lemma type_check_not_found:
  assumes "length t = 12"
  shows "find3 xs t (-1) (-1 + int (length t)) = -1"
  using assms by (auto simp: find3_def adjust_index_def Let_def min_def)

lemma decode_int_nonneg: "0 \<le> decode_int bs"
  by (induction bs) simp_all

lemma take_drop_2:
  assumes "i + 2 \<le> length xs"
  shows "take 2 (drop i xs) = [xs ! i, xs ! (i + 1)]"
proof -
  have "drop i xs = xs ! i # xs ! (Suc i) # drop (Suc (Suc i)) xs"
    using assms by (simp add: Cons_nth_drop_Suc)
  then show ?thesis by simp
qed

lemma take_drop_4:
  assumes "i + 4 \<le> length xs"
  shows "take 4 (drop i xs) = [xs ! i, xs ! (i + 1), xs ! (i + 2), xs ! (i + 3)]"
proof -
  have "drop i xs = xs ! i # xs ! (Suc i) # xs ! (Suc (Suc i)) # xs ! (Suc (Suc (Suc i)))
      # drop (Suc (Suc (Suc (Suc i)))) xs"
    using assms by (simp add: Cons_nth_drop_Suc)
  then show ?thesis by (simp add: numeral_eq_Suc)
qed

lemma descriptor_length:
  assumes "0 \<le> off" "nat off + k + 2 \<le> length readbuff"
  shows "decode_int (slice readbuff (off + int k) (off + int k + 2)) =
     uint (readbuff ! (nat off + k)) + 256 * uint (readbuff ! (nat off + k + 1))"
proof -
  have "slice readbuff (off + int k) (off + int k + 2) = take 2 (drop (nat off + k) readbuff)"
    using assms by (simp add: slice_nonneg nat_add_distrib)
  then show ?thesis using assms by (simp add: take_drop_2)
qed

lemma descriptor_offset:
  assumes "0 \<le> off" "nat off + k + 8 \<le> length readbuff"
  shows "decode_int (slice readbuff (off + int k + 2 + 2) (off + int k + 2 + 2 + 4)) =
     uint (readbuff ! (nat off + k + 4)) + 256 * uint (readbuff ! (nat off + k + 5))
       + 65536 * uint (readbuff ! (nat off + k + 6)) + 16777216 * uint (readbuff ! (nat off + k + 7))"
proof -
  have "nat (off + int k + 2 + 2) = nat off + k + 4" using assms by (simp add: nat_add_distrib)
  then have "slice readbuff (off + int k + 2 + 2) (off + int k + 2 + 2 + 4)
      = take 4 (drop (nat off + k + 4) readbuff)"
    using assms by (simp add: slice_nonneg)
  moreover have "(nat off + k + 4) + 4 \<le> length readbuff" using assms by simp
  ultimately show ?thesis by (simp add: take_drop_4 ac_simps)
qed

section \<open>The byte ranges of the Type 3 fields\<close>

lemma slice_take_drop:
  "0 \<le> i \<Longrightarrow> 0 \<le> n \<Longrightarrow> slice xs i (i + n) = take (nat n) (drop (nat i) xs)"
  by (simp add: slice_nonneg)

lemma field_ranges:
  assumes "0 \<le> off"
  shows "domain readbuff off =
           take (nat (domain_length readbuff off))
             (drop (nat (off + domain_offset readbuff off)) readbuff)"
    and "username readbuff off =
           take (nat (username_length readbuff off))
             (drop (nat (off + username_offset readbuff off)) readbuff)"
    and "workstation readbuff off =
           take (nat (workstation_length readbuff off))
             (drop (nat (off + workstation_offset readbuff off)) readbuff)"
    and "ntproofstr readbuff off = take 16 (drop (nat (off + ntlm_offset readbuff off)) readbuff)"
  using assms
  by (simp_all add: domain_def username_def workstation_def ntproofstr_def slice_take_drop
      domain_offset_def username_offset_def workstation_offset_def ntlm_offset_def
      domain_length_def username_length_def workstation_length_def decode_int_nonneg)

lemma response_split:
  assumes "0 \<le> off" "16 \<le> ntlm_length readbuff off"
  shows "ntlmv2_response readbuff off =
           take (nat (ntlm_length readbuff off - 16))
             (drop (nat (off + ntlm_offset readbuff off) + 16) readbuff)"
    and "ntproofstr readbuff off @ ntlmv2_response readbuff off =
           take (nat (ntlm_length readbuff off))
             (drop (nat (off + ntlm_offset readbuff off)) readbuff)"
proof -
  let ?p = "off + ntlm_offset readbuff off"
  let ?n = "ntlm_length readbuff off"
  have p: "0 \<le> ?p" using assms(1) by (simp add: ntlm_offset_def decode_int_nonneg)
  have "?p + ?n = ?p + 16 + (?n - 16)" by simp
  then have "ntlmv2_response readbuff off = slice readbuff (?p + 16) (?p + 16 + (?n - 16))"
    unfolding ntlmv2_response_def by (rule arg_cong)
  also have "\<dots> = take (nat (?n - 16)) (drop (nat (?p + 16)) readbuff)"
    using p assms(2) by (intro slice_take_drop) simp_all
  also have "nat (?p + 16) = nat ?p + 16" using p by (simp add: nat_add_distrib)
  finally show r: "ntlmv2_response readbuff off =
      take (nat (?n - 16)) (drop (nat ?p + 16) readbuff)" .
  have "ntproofstr readbuff off = take 16 (drop (nat ?p) readbuff)"
    using field_ranges(4) [OF assms(1)] .
  moreover have "nat ?n = 16 + nat (?n - 16)" using assms(2) by simp
  ultimately show "ntproofstr readbuff off @ ntlmv2_response readbuff off =
      take (nat ?n) (drop (nat ?p) readbuff)"
    unfolding r by (simp add: take_add add.commute)
qed

lemma short_response_empty:
  assumes "0 \<le> off" "ntlm_length readbuff off < 16"
  shows "ntlmv2_response readbuff off = []"
proof -
  have "0 \<le> off + ntlm_offset readbuff off"
    using assms(1) by (simp add: ntlm_offset_def decode_int_nonneg)
  moreover have "0 \<le> ntlm_length readbuff off" by (simp add: ntlm_length_def decode_int_nonneg)
  ultimately show ?thesis
    using assms(2) unfolding ntlmv2_response_def by (intro slice_empty) simp_all
qed

section \<open>Properties of the branches and of the loop body\<close>

lemma print_fields:
  "offset (print a s) = offset s"
  "server_challenge (print a s) = server_challenge s"
  "files (print a s) = files s"
  "stdout (print a s) = stdout s @ [join_args a]"
  by (simp_all add: print_def)

lemma writeOutfile_fields:
  "offset (writeOutfile p t s) = offset s"
  "server_challenge (writeOutfile p t s) = server_challenge s"
  "stdout (writeOutfile p t s) = stdout s"
  by (simp_all add: writeOutfile_def)

lemma print_decoded_Inr:
  "print_decoded l b s = Inr s' \<Longrightarrow>
     offset s' = offset s \<and> server_challenge s' = server_challenge s \<and> files s' = files s"
  by (auto simp: print_decoded_def print_fields split: sum.splits)

lemma type1_branch_fields:
  "offset (type1_branch verbose quiet s) = offset s"
  "server_challenge (type1_branch verbose quiet s) = server_challenge s"
  "files (type1_branch verbose quiet s) = files s"
  by (simp_all add: type1_branch_def print_fields)

lemma type2_branch_fields:
  "offset (type2_branch readbuff verbose quiet s) = offset s"
  "files (type2_branch readbuff verbose quiet s) = files s"
  "server_challenge (type2_branch readbuff verbose quiet s) =
     Some (slice readbuff (offset s + 24) (offset s + 32))"
  by (simp_all add: type2_branch_def print_fields Let_def)

lemma type3_header_fields:
  "offset (type3_header verbose quiet s) = offset s"
  "server_challenge (type3_header verbose quiet s) = server_challenge s"
  "files (type3_header verbose quiet s) = files s"
  by (simp_all add: type3_header_def print_fields)

lemma type3_ntlm_fields:
  "offset (type3_ntlm readbuff verbose quiet s) = offset s"
  "server_challenge (type3_ntlm readbuff verbose quiet s) = server_challenge s"
  "files (type3_ntlm readbuff verbose quiet s) = files s"
  by (simp_all add: type3_ntlm_def print_fields)

lemma type3_domain_Inr:
  "type3_domain readbuff verbose quiet s = Inr s' \<Longrightarrow>
     offset s' = offset s \<and> server_challenge s' = server_challenge s \<and> files s' = files s"
  by (auto simp: type3_domain_def and_then_def print_fields dest: print_decoded_Inr
           split: if_splits sum.splits)

lemma type3_username_Inr:
  "type3_username readbuff verbose quiet s = Inr s' \<Longrightarrow>
     offset s' = offset s \<and> server_challenge s' = server_challenge s \<and> files s' = files s"
  by (auto simp: type3_username_def and_then_def print_fields dest: print_decoded_Inr
           split: if_splits sum.splits)

lemma type3_workstation_Inr:
  "type3_workstation readbuff verbose quiet s = Inr s' \<Longrightarrow>
     offset s' = offset s \<and> server_challenge s' = server_challenge s \<and> files s' = files s"
  by (auto simp: type3_workstation_def and_then_def print_fields dest: print_decoded_Inr
           split: if_splits sum.splits)

lemma type3_hash_Inr:
  "type3_hash readbuff outfile quiet s = Inr s' \<Longrightarrow>
     offset s' = offset s \<and> server_challenge s' = None"
  by (auto simp: type3_hash_def and_then_def print_fields writeOutfile_fields Let_def
           split: if_splits sum.splits option.splits)

lemma type3_branch_Inr:
  assumes "type3_branch readbuff outfile verbose quiet s = Inr s'"
  shows "offset s' = offset s \<and> server_challenge s' = None"
proof -
  from assms obtain s1 s2 s3 where
    d: "type3_domain readbuff verbose quiet (type3_header verbose quiet s) = Inr s1" and
    u: "type3_username readbuff verbose quiet s1 = Inr s2" and
    w: "type3_workstation readbuff verbose quiet s2 = Inr s3" and
    h: "type3_hash readbuff outfile quiet (type3_ntlm readbuff verbose quiet s3) = Inr s'"
    by (auto simp: type3_branch_def and_then_def split: sum.splits)
  from type3_domain_Inr [OF d] type3_username_Inr [OF u] type3_workstation_Inr [OF w]
    type3_hash_Inr [OF h]
  show ?thesis by (simp add: type3_header_fields type3_ntlm_fields)
qed

lemma loop_body_offset:
  "loop_body readbuff outfile verbose quiet s = Inr s' \<Longrightarrow>
     offset s' = advance readbuff (offset s)"
  by (auto simp: loop_body_def Let_def type1_branch_fields type2_branch_fields
           dest!: type3_branch_Inr split: if_splits)

lemma sig_length: "length ntlmssp_sig = 8"
  by (simp add: ntlmssp_sig_def)

lemma type_lengths:
  "length ntlmssp_type_1 = 12" "length ntlmssp_type_2 = 12" "length ntlmssp_type_3 = 12"
  by (simp_all add: ntlmssp_type_1_def ntlmssp_type_2_def ntlmssp_type_3_def)

lemma advance_result:
  assumes "0 \<le> off"
  shows "advance readbuff off = -1 \<or>
    (\<exists>p. advance readbuff off = int p \<and> (if off \<noteq> 0 then nat off + 8 else 0) \<le> p
          \<and> p + 8 \<le> length readbuff \<and> take 8 (drop p readbuff) = ntlmssp_sig)"
proof -
  let ?start = "if off \<noteq> 0 then off + int (length ntlmssp_sig) else off"
  have "0 \<le> ?start" using assms by simp
  from find2_result [OF this, of readbuff ntlmssp_sig]
  show ?thesis using assms by (auto simp: advance_def sig_length nat_add_distrib)
qed

lemma advance_zero:
  assumes "take 8 readbuff = ntlmssp_sig"
  shows "advance readbuff 0 = 0"
proof -
  have "8 \<le> length readbuff"
    using assms sig_length by (metis length_take min.cobounded1 min_def)
  then show ?thesis
    using assms by (simp add: advance_def find2_nonneg sig_length)
qed

lemma types_distinct:
  "ntlmssp_type_1 \<noteq> ntlmssp_type_2" "ntlmssp_type_1 \<noteq> ntlmssp_type_3"
  "ntlmssp_type_2 \<noteq> ntlmssp_type_3"
  by (simp_all add: ntlmssp_type_1_def ntlmssp_type_2_def ntlmssp_type_3_def)

lemma loop_body_at:
  assumes "advance readbuff (offset s) = p" "0 \<le> p"
  shows "loop_body readbuff outfile verbose quiet s =
    (if take 12 (drop (nat p) readbuff) = ntlmssp_type_1
       then Inr (type1_branch verbose quiet (s\<lparr>offset := p\<rparr>))
     else if take 12 (drop (nat p) readbuff) = ntlmssp_type_2
       then Inr (type2_branch readbuff verbose quiet (s\<lparr>offset := p\<rparr>))
     else if take 12 (drop (nat p) readbuff) = ntlmssp_type_3
       then type3_branch readbuff outfile verbose quiet (s\<lparr>offset := p\<rparr>)
     else Inr (s\<lparr>offset := p\<rparr>))"
  using assms type_check [of p ntlmssp_type_1 readbuff] type_check [of p ntlmssp_type_2 readbuff]
    type_check [of p ntlmssp_type_3 readbuff] types_distinct
  by (auto simp: loop_body_def Let_def type_lengths type1_branch_fields type2_branch_fields)

lemma loop_body_end:
  assumes "advance readbuff (offset s) = -1"
  shows "loop_body readbuff outfile verbose quiet s = Inr (s\<lparr>offset := -1\<rparr>)"
  using assms type_check_not_found [of ntlmssp_type_1 readbuff]
    type_check_not_found [of ntlmssp_type_2 readbuff]
    type_check_not_found [of ntlmssp_type_3 readbuff]
  by (simp add: loop_body_def Let_def type_lengths)















section \<open>Termination and non-termination of the loop\<close>

lemma loop_body_no_type3:
  assumes "0 \<le> advance readbuff (offset s)"
    and "take 12 (drop (nat (advance readbuff (offset s))) readbuff) \<noteq> ntlmssp_type_3"
  shows "\<exists>s'. loop_body readbuff outfile verbose quiet s = Inr s'"
  using assms type_check [of "advance readbuff (offset s)" ntlmssp_type_3 readbuff]
  by (simp add: loop_body_def Let_def type1_branch_fields type2_branch_fields type_lengths)

lemma while_loop_stuck:
  assumes run: "while_loop readbuff outfile verbose quiet s = Some r"
    and "offset s = 0" "take 8 readbuff = ntlmssp_sig"
  shows "\<exists>e t. r = Inl (e, t)"
proof -
  have "offset s = 0 \<longrightarrow> take 8 readbuff = ntlmssp_sig \<longrightarrow> (\<exists>e t. r = Inl (e, t))"
  proof (rule while_loop.raw_induct
      [where P = "\<lambda>readbuff outfile verbose quiet s r.
         offset s = 0 \<longrightarrow> take 8 readbuff = ntlmssp_sig \<longrightarrow> (\<exists>e t. r = Inl (e, t))", OF _ run])
    fix f :: "bytes \<Rightarrow> pystr \<Rightarrow> bool \<Rightarrow> bool \<Rightarrow> state \<Rightarrow> outcome option"
      and readbuff outfile verbose quiet s r
    assume IH: "\<And>readbuff outfile verbose quiet s r. f readbuff outfile verbose quiet s = Some r \<Longrightarrow>
        offset s = 0 \<longrightarrow> take 8 readbuff = ntlmssp_sig \<longrightarrow> (\<exists>e t. r = Inl (e, t))"
      and eq: "(if offset s \<noteq> -1
         then case loop_body readbuff outfile verbose quiet s of
                Inl e \<Rightarrow> Some (Inl e) | Inr s' \<Rightarrow> f readbuff outfile verbose quiet s'
         else Some (Inr s)) = Some r"
    show "offset s = 0 \<longrightarrow> take 8 readbuff = ntlmssp_sig \<longrightarrow> (\<exists>e t. r = Inl (e, t))"
    proof (intro impI)
      assume z: "offset s = 0" and sig: "take 8 readbuff = ntlmssp_sig"
      show "\<exists>e t. r = Inl (e, t)"
      proof (cases "loop_body readbuff outfile verbose quiet s")
        case (Inl e)
        with eq z show ?thesis by (cases e) auto
      next
        case (Inr s')
        from loop_body_offset [OF Inr] z sig have "offset s' = 0" by (simp add: advance_zero)
        moreover from Inr eq z have "f readbuff outfile verbose quiet s' = Some r" by simp
        ultimately show ?thesis using IH sig by blast
      qed
    qed
  qed
  with assms show ?thesis by blast
qed

lemma while_loop_diverges:
  assumes "offset s = 0" "take 8 readbuff = ntlmssp_sig" "take 12 readbuff \<noteq> ntlmssp_type_3"
  shows "while_loop readbuff outfile verbose quiet s = None"
proof (rule ccontr)
  assume "while_loop readbuff outfile verbose quiet s \<noteq> None"
  then obtain r where run: "while_loop readbuff outfile verbose quiet s = Some r" by auto
  have "offset s = 0 \<longrightarrow> take 8 readbuff = ntlmssp_sig \<longrightarrow> take 12 readbuff \<noteq> ntlmssp_type_3
          \<longrightarrow> False"
  proof (rule while_loop.raw_induct
      [where P = "\<lambda>readbuff outfile verbose quiet s r.
         offset s = 0 \<longrightarrow> take 8 readbuff = ntlmssp_sig \<longrightarrow> take 12 readbuff \<noteq> ntlmssp_type_3
           \<longrightarrow> False", OF _ run])
    fix f :: "bytes \<Rightarrow> pystr \<Rightarrow> bool \<Rightarrow> bool \<Rightarrow> state \<Rightarrow> outcome option"
      and readbuff outfile verbose quiet s r
    assume IH: "\<And>readbuff outfile verbose quiet s r. f readbuff outfile verbose quiet s = Some r \<Longrightarrow>
        offset s = 0 \<longrightarrow> take 8 readbuff = ntlmssp_sig \<longrightarrow> take 12 readbuff \<noteq> ntlmssp_type_3
          \<longrightarrow> False"
      and eq: "(if offset s \<noteq> -1
         then case loop_body readbuff outfile verbose quiet s of
                Inl e \<Rightarrow> Some (Inl e) | Inr s' \<Rightarrow> f readbuff outfile verbose quiet s'
         else Some (Inr s)) = Some r"
    show "offset s = 0 \<longrightarrow> take 8 readbuff = ntlmssp_sig \<longrightarrow> take 12 readbuff \<noteq> ntlmssp_type_3
            \<longrightarrow> False"
    proof (intro impI)
      assume z: "offset s = 0" and sig: "take 8 readbuff = ntlmssp_sig"
        and t3: "take 12 readbuff \<noteq> ntlmssp_type_3"
      have adv: "advance readbuff (offset s) = 0" using z sig by (simp add: advance_zero)
      with loop_body_no_type3 [of readbuff s outfile verbose quiet] t3
      obtain s' where s': "loop_body readbuff outfile verbose quiet s = Inr s'" by auto
      from loop_body_offset [OF s'] adv have "offset s' = 0" by simp
      moreover from s' eq z have "f readbuff outfile verbose quiet s' = Some r" by simp
      ultimately show False using IH sig t3 by blast
    qed
  qed
  with assms show False by blast
qed

lemma while_loop_terminates_pos:
  "0 < offset s \<or> offset s = -1 \<Longrightarrow> \<exists>r. while_loop readbuff outfile verbose quiet s = Some r"
proof (induction "nat (int (length readbuff) - offset s)" arbitrary: s rule: less_induct)
  case less
  show ?case
  proof (cases "offset s = -1")
    case True
    then show ?thesis by (subst while_loop.simps) simp
  next
    case False
    with less.prems have pos: "0 < offset s" by simp
    show ?thesis
    proof (cases "loop_body readbuff outfile verbose quiet s")
      case (Inl e)
      with False show ?thesis by (subst while_loop.simps) simp
    next
      case (Inr s')
      have off': "offset s' = advance readbuff (offset s)" by (rule loop_body_offset [OF Inr])
      from advance_result [of "offset s" readbuff] pos
      have "offset s' = -1 \<or> (offset s + 8 \<le> offset s' \<and> offset s' + 8 \<le> int (length readbuff))"
        unfolding off' by auto
      then have "\<exists>r. while_loop readbuff outfile verbose quiet s' = Some r"
      proof
        assume "offset s' = -1"
        then show ?thesis by (subst while_loop.simps) simp
      next
        assume a: "offset s + 8 \<le> offset s' \<and> offset s' + 8 \<le> int (length readbuff)"
        with pos have "nat (int (length readbuff) - offset s') < nat (int (length readbuff) - offset s)"
          by linarith
        moreover from a pos have "0 < offset s'" by linarith
        ultimately show ?thesis using less.hyps by blast
      qed
      with Inr False show ?thesis by (subst while_loop.simps) simp
    qed
  qed
qed

lemma scan_terminates:
  assumes "take 8 readbuff \<noteq> ntlmssp_sig"
  shows "\<exists>r. searchCaptureFile readbuff outfile verbose quiet 0 fs = Some r"
proof -
  let ?s = "\<lparr>offset = 0, server_challenge = None, stdout = [], files = fs\<rparr>"
  show ?thesis
  proof (cases "loop_body readbuff outfile verbose quiet ?s")
    case (Inl e)
    then show ?thesis unfolding searchCaptureFile_def by (subst while_loop.simps) simp
  next
    case (Inr s')
    have off': "offset s' = advance readbuff 0" using loop_body_offset [OF Inr] by simp
    from advance_result [of 0 readbuff] assms
    have "advance readbuff 0 = -1 \<or> 0 < advance readbuff 0"
      by (auto simp: neq0_conv)
    with off' have "0 < offset s' \<or> offset s' = -1" by auto
    from while_loop_terminates_pos [OF this]
    show ?thesis using Inr unfolding searchCaptureFile_def by (subst while_loop.simps) simp
  qed
qed

section \<open>The scenario of the specification\<close>

lemma type2_message_list:
  "type2_message = [0x4e, 0x54, 0x4c, 0x4d, 0x53, 0x53, 0x50, 0x00, 0x02, 0x00, 0x00, 0x00,
     0,0,0,0,0,0,0,0,0,0,0,0, 1,2,3,4,5,6,7,8,
     0,0,0,0,0,0,0,0,0,0,0,0,0,0,0,0,0,0,0,0,
     0,0,0,0,0,0,0,0,0,0,0,0,0,0,0,0,0,0,0,0,
     0,0,0,0,0,0,0,0,0,0,0,0,0,0,0,0,0,0,0,0,
     0,0,0,0,0,0,0,0]"
  by (simp add: type2_message_def ntlmssp_type_2_def eval_nat_numeral)

lemma spec_buffer_diverges:
  "searchCaptureFile spec_buffer outfile verbose quiet 0 fs = None"
  unfolding searchCaptureFile_def
  by (rule while_loop_diverges)
     (simp_all add: spec_buffer_def type2_message_list ntlmssp_sig_def ntlmssp_type_3_def)

lemma spec_buffer_iteration:
  "loop_body spec_buffer outfile verbose True
     \<lparr>offset = 0, server_challenge = c, stdout = out, files = fs\<rparr>
   = Inr \<lparr>offset = 0, server_challenge = Some [1, 2, 3, 4, 5, 6, 7, 8], stdout = out, files = fs\<rparr>"
proof -
  have sig: "take 8 spec_buffer = ntlmssp_sig"
    by (simp add: spec_buffer_def type2_message_list ntlmssp_sig_def)
  have t: "take 12 (drop (nat 0) spec_buffer) = ntlmssp_type_2"
    by (simp add: spec_buffer_def type2_message_list ntlmssp_type_2_def)
  have ch: "slice spec_buffer 24 32 = [1, 2, 3, 4, 5, 6, 7, 8]"
    by (simp add: slice_nonneg spec_buffer_def type2_message_list)
  have adv: "advance spec_buffer
      (offset \<lparr>offset = 0, server_challenge = c, stdout = out, files = fs\<rparr>) = 0"
    using advance_zero [OF sig] by simp
  show ?thesis
    unfolding loop_body_at [OF adv order_refl] t
    using types_distinct by (simp add: type2_branch_def ch)
qed

text \<open>
  C1.  The specification's scenario: on the buffer with the Type 2 message at offset 0
  and the Type 3 message at offset 100 the scan is expected to print exactly one record,
  \<open>bob::WS1:0102030405060708:aa..:bb..\<close>.  The program does not: the call never
  returns, and each iteration of the loop finds the Type 2 message at offset 0 again,
  stores its challenge and (in quiet mode) prints nothing, so the Type 3 message at
  offset 100 is never reached.
\<close>

theorem spec_scenario_never_reaches_type3:
  "searchCaptureFile spec_buffer outfile verbose quiet 0 fs = None \<and>
   loop_body spec_buffer outfile verbose True
     \<lparr>offset = 0, server_challenge = c, stdout = out, files = fs\<rparr>
   = Inr \<lparr>offset = 0, server_challenge = Some [1, 2, 3, 4, 5, 6, 7, 8], stdout = out,
          files = fs\<rparr>"
  using spec_buffer_diverges spec_buffer_iteration by simp

section \<open>Termination of a scan pass\<close>

text \<open>
  C3.  A scan pass over a finite buffer is expected to terminate, also when a signature
  lies at offset 0.  On the 12-byte buffer that holds just the head of a Type 1 message
  the call never returns: with \<open>offset = 0\<close> the loop does not step past the signature,
  so the search finds offset 0 again in every iteration.
\<close>

theorem scan_with_signature_at_0_never_returns:
  "searchCaptureFile ntlmssp_type_1 outfile verbose quiet 0 fs = None"
  unfolding searchCaptureFile_def
  by (rule while_loop_diverges)
     (simp_all add: ntlmssp_type_1_def ntlmssp_sig_def ntlmssp_type_3_def)

section \<open>The same messages behind one leading byte\<close>

text \<open>
  With the Type 2 message at offset 1 and the Type 3 message at offset 101 the loop makes
  three iterations: it stores the challenge, prints the record, and ends.
\<close>

lemma find_scan_unfold:
  "find_scan sub xs i k =
     (if k = 0 then -1
      else if take (length sub) (drop i xs) = sub then int i
      else find_scan sub xs (i + 1) (k - 1))"
  by (cases k) simp_all

lemma type3_message_list:
  "type3_message = [0x4e, 0x54, 0x4c, 0x4d, 0x53, 0x53, 0x50, 0x00, 0x03, 0x00, 0x00, 0x00,
     0,0,0,0,0,0,0,0,
     0x1A, 0, 0x1A, 0, 0x4C, 0, 0, 0,
     0, 0, 0, 0, 0x40, 0, 0, 0,
     6, 0, 6, 0, 0x40, 0, 0, 0,
     6, 0, 6, 0, 0x46, 0, 0, 0,
     0,0,0,0,0,0,0,0,0,0,0,0,
     0x62, 0, 0x6F, 0, 0x62, 0,
     0x57, 0, 0x53, 0, 0x31, 0,
     0xAA,0xAA,0xAA,0xAA,0xAA,0xAA,0xAA,0xAA,0xAA,0xAA,0xAA,0xAA,0xAA,0xAA,0xAA,0xAA,
     0xBB,0xBB,0xBB,0xBB,0xBB,0xBB,0xBB,0xBB,0xBB,0xBB]"
  by (simp add: type3_message_def ntlmssp_type_3_def eval_nat_numeral)

lemma length_type2_message: "length type2_message = 100"
  by (simp add: type2_message_def ntlmssp_type_2_def)

lemma length_type3_message: "length type3_message = 102"
  by (simp add: type3_message_def ntlmssp_type_3_def)

lemma shifted_advance_0: "advance shifted_buffer 0 = 1"
  by (simp add: advance_def find2_nonneg shifted_buffer_def spec_buffer_def length_type2_message
      length_type3_message sig_length find_scan_unfold type2_message_list ntlmssp_sig_def)

lemma shifted_advance_1: "advance shifted_buffer 1 = 101"
  by (simp add: advance_def find2_nonneg shifted_buffer_def spec_buffer_def 
      sig_length find_scan_unfold type2_message_list type3_message_list ntlmssp_sig_def)

lemma shifted_advance_101: "advance shifted_buffer 101 = -1"
  by (simp add: advance_def find2_nonneg shifted_buffer_def spec_buffer_def 
      sig_length find_scan_unfold type2_message_list type3_message_list ntlmssp_sig_def)

lemma shifted_buffer_list:
  "shifted_buffer = 0 # type2_message @ type3_message"
  by (simp add: shifted_buffer_def spec_buffer_def)

lemmas shifted_eval = shifted_buffer_list type2_message_list type3_message_list slice_nonneg

lemma shifted_type2: "take 12 (drop (nat 1) shifted_buffer) = ntlmssp_type_2"
  by (simp add: shifted_eval ntlmssp_type_2_def)

lemma shifted_type3: "take 12 (drop (nat 101) shifted_buffer) = ntlmssp_type_3"
  by (simp add: shifted_eval ntlmssp_type_3_def)

lemma shifted_challenge: "slice shifted_buffer (1 + 24) (1 + 32) = [1, 2, 3, 4, 5, 6, 7, 8]"
  by (simp add: shifted_eval)

lemma shifted_fields:
  "ntlm_length shifted_buffer 101 = 26"
  "domain_length shifted_buffer 101 = 0"
  "domain shifted_buffer 101 = []"
  "username shifted_buffer 101 = [0x62, 0, 0x6F, 0, 0x62, 0]"
  "workstation shifted_buffer 101 = [0x57, 0, 0x53, 0, 0x31, 0]"
  "ntproofstr shifted_buffer 101 =
     [0xAA,0xAA,0xAA,0xAA,0xAA,0xAA,0xAA,0xAA,0xAA,0xAA,0xAA,0xAA,0xAA,0xAA,0xAA,0xAA]"
  "ntlmv2_response shifted_buffer 101 = [0xBB,0xBB,0xBB,0xBB,0xBB,0xBB,0xBB,0xBB,0xBB,0xBB]"
  by (simp_all add: ntlm_length_def ntlm_offset_def domain_length_def domain_offset_def domain_def
      username_def username_length_def username_offset_def workstation_def
      workstation_length_def workstation_offset_def ntproofstr_def ntlmv2_response_def
      shifted_eval)

lemma decode_bob: "decode_string [0x62, 0, 0x6F, 0, 0x62, 0] = Inr (lit ''bob'')"
  by (simp add: decode_string_def lit_def)

lemma decode_ws1: "decode_string [0x57, 0, 0x53, 0, 0x31, 0] = Inr (lit ''WS1'')"
  by (simp add: decode_string_def lit_def)

lemma shifted_hash_out:
  "hash_out_user shifted_buffer 101 [1, 2, 3, 4, 5, 6, 7, 8] = Inr spec_record"
  by (simp add: hash_out_user_def shifted_fields decode_bob decode_ws1 hex_def hex_digit_def
      spec_record_def lit_def)

lemma shifted_type3_branch:
  assumes "offset s = 101" "server_challenge s = Some [1, 2, 3, 4, 5, 6, 7, 8]"
  shows "type3_branch shifted_buffer outfile verbose True s =
    (if outfile \<noteq> [] then Inl (NameError, print [spec_record] s)
     else Inr ((print [] (print [spec_record] s))\<lparr>server_challenge := None\<rparr>))"
  using assms
  by (simp add: type3_branch_def type3_header_def type3_domain_def type3_username_def
      type3_workstation_def type3_ntlm_def type3_hash_def and_then_def shifted_fields
      shifted_hash_out Let_def)

lemma shifted_iteration_1:
  "loop_body shifted_buffer outfile verbose True
     \<lparr>offset = 0, server_challenge = None, stdout = [], files = fs\<rparr>
   = Inr \<lparr>offset = 1, server_challenge = Some [1, 2, 3, 4, 5, 6, 7, 8], stdout = [], files = fs\<rparr>"
proof -
  have adv: "advance shifted_buffer
      (offset \<lparr>offset = 0, server_challenge = None, stdout = [], files = fs\<rparr>) = 1"
    using shifted_advance_0 by simp
  have pos: "(0::int) \<le> 1" by simp
  show ?thesis
    unfolding loop_body_at [OF adv pos] shifted_type2
    using types_distinct shifted_challenge by (simp add: type2_branch_def)
qed

lemma shifted_iteration_2:
  "loop_body shifted_buffer outfile verbose True
     \<lparr>offset = 1, server_challenge = Some [1, 2, 3, 4, 5, 6, 7, 8], stdout = [], files = fs\<rparr>
   = (if outfile \<noteq> [] then
        Inl (NameError, \<lparr>offset = 101, server_challenge = Some [1, 2, 3, 4, 5, 6, 7, 8],
               stdout = [spec_record], files = fs\<rparr>)
      else Inr \<lparr>offset = 101, server_challenge = None, stdout = [spec_record, []], files = fs\<rparr>)"
proof -
  have adv: "advance shifted_buffer
      (offset \<lparr>offset = 1, server_challenge = Some [1, 2, 3, 4, 5, 6, 7, 8], stdout = [],
         files = fs\<rparr>) = 101"
    using shifted_advance_1 by simp
  have pos: "(0::int) \<le> 101" by simp
  show ?thesis
    unfolding loop_body_at [OF adv pos] shifted_type3
    using types_distinct by (simp add: shifted_type3_branch print_def)
qed

lemma shifted_iteration_3:
  "loop_body shifted_buffer outfile verbose True
     \<lparr>offset = 101, server_challenge = None, stdout = [spec_record, []], files = fs\<rparr>
   = Inr \<lparr>offset = -1, server_challenge = None, stdout = [spec_record, []], files = fs\<rparr>"
proof -
  have adv: "advance shifted_buffer
      (offset \<lparr>offset = 101, server_challenge = None, stdout = [spec_record, []], files = fs\<rparr>)
      = -1"
    using shifted_advance_101 by simp
  show ?thesis unfolding loop_body_end [OF adv] by simp
qed

lemma shifted_scan:
  "searchCaptureFile shifted_buffer [] verbose True 0 fs =
     Some (Inr \<lparr>offset = -1, server_challenge = None, stdout = [spec_record, []], files = fs\<rparr>)"
  unfolding searchCaptureFile_def
  apply (subst while_loop.simps, simp add: shifted_iteration_1)
  apply (subst while_loop.simps, simp add: shifted_iteration_2)
  apply (subst while_loop.simps, simp add: shifted_iteration_3)
  apply (subst while_loop.simps, simp)
  done

lemma shifted_scan_outfile:
  "outfile \<noteq> [] \<Longrightarrow> searchCaptureFile shifted_buffer outfile verbose True 0 fs =
     Some (Inl (NameError, \<lparr>offset = 101, server_challenge = Some [1, 2, 3, 4, 5, 6, 7, 8],
               stdout = [spec_record], files = fs\<rparr>))"
  unfolding searchCaptureFile_def
  apply (subst while_loop.simps, simp add: shifted_iteration_1)
  apply (subst while_loop.simps, simp add: shifted_iteration_2)
  done

section \<open>Writing the record to the output file\<close>

text \<open>
  C5.  With an output file configured, a hash line is expected on standard output and at
  the end of that file, for both shapes of the record.  For a record without a domain
  the program prints the line and then fails: line 240 passes the undefined name
  \<open>output\<close> where line 245 passes \<open>outfile\<close>.  On the two messages at offsets 1 and
  101 with the output file \<open>hashes.txt\<close> the call ends with \<open>NameError\<close>, the record
  printed and no file written.
\<close>

theorem zero_domain_record_raises_NameError:
  "searchCaptureFile shifted_buffer (lit ''hashes.txt'') False True 0 Map.empty =
     Some (Inl (NameError, \<lparr>offset = 101, server_challenge = Some [1, 2, 3, 4, 5, 6, 7, 8],
               stdout = [spec_record], files = Map.empty\<rparr>))"
  by (rule shifted_scan_outfile) (simp add: lit_def)

section \<open>Decoding the fields of a Type 3 message\<close>

text \<open>
  C7.  For a Type 3 message at \<open>off\<close> whose 52-byte header lies inside the buffer, each
  of the four descriptors, the NTLM response at +20, the domain at +28, the user name at
  +36 and the workstation at +44, is read as a length from its first two bytes in
  little-endian order and an offset from its bytes 4 to 7 in little-endian order; the
  bytes 2 and 3 (the maximal length) are not read.  The bytes of a field are those of
  the buffer from \<open>off\<close> plus the field's offset on, as many as the field's length.  The
  proof value is the 16 bytes at the response's offset, and for a response length of at
  least 16 the remainder has that length less 16 and follows the proof value, the two
  together being the response.
\<close>

theorem type3_field_decoding:
  assumes "0 \<le> off" "nat off + 52 \<le> length readbuff"
  shows "ntlm_length readbuff off =
           uint (readbuff ! (nat off + 20)) + 256 * uint (readbuff ! (nat off + 21))
       \<and> ntlm_offset readbuff off =
           uint (readbuff ! (nat off + 24)) + 256 * uint (readbuff ! (nat off + 25))
             + 65536 * uint (readbuff ! (nat off + 26)) + 16777216 * uint (readbuff ! (nat off + 27))
       \<and> domain_length readbuff off =
           uint (readbuff ! (nat off + 28)) + 256 * uint (readbuff ! (nat off + 29))
       \<and> domain_offset readbuff off =
           uint (readbuff ! (nat off + 32)) + 256 * uint (readbuff ! (nat off + 33))
             + 65536 * uint (readbuff ! (nat off + 34)) + 16777216 * uint (readbuff ! (nat off + 35))
       \<and> username_length readbuff off =
           uint (readbuff ! (nat off + 36)) + 256 * uint (readbuff ! (nat off + 37))
       \<and> username_offset readbuff off =
           uint (readbuff ! (nat off + 40)) + 256 * uint (readbuff ! (nat off + 41))
             + 65536 * uint (readbuff ! (nat off + 42)) + 16777216 * uint (readbuff ! (nat off + 43))
       \<and> workstation_length readbuff off =
           uint (readbuff ! (nat off + 44)) + 256 * uint (readbuff ! (nat off + 45))
       \<and> workstation_offset readbuff off =
           uint (readbuff ! (nat off + 48)) + 256 * uint (readbuff ! (nat off + 49))
             + 65536 * uint (readbuff ! (nat off + 50)) + 16777216 * uint (readbuff ! (nat off + 51))
       \<and> domain readbuff off =
           take (nat (domain_length readbuff off))
             (drop (nat (off + domain_offset readbuff off)) readbuff)
       \<and> username readbuff off =
           take (nat (username_length readbuff off))
             (drop (nat (off + username_offset readbuff off)) readbuff)
       \<and> workstation readbuff off =
           take (nat (workstation_length readbuff off))
             (drop (nat (off + workstation_offset readbuff off)) readbuff)
       \<and> ntproofstr readbuff off =
           take 16 (drop (nat (off + ntlm_offset readbuff off)) readbuff)
       \<and> (16 \<le> ntlm_length readbuff off \<longrightarrow>
            ntlmv2_response readbuff off =
              take (nat (ntlm_length readbuff off - 16))
                (drop (nat (off + ntlm_offset readbuff off) + 16) readbuff)
          \<and> ntproofstr readbuff off @ ntlmv2_response readbuff off =
              take (nat (ntlm_length readbuff off))
                (drop (nat (off + ntlm_offset readbuff off)) readbuff))"
proof -
  have len: "\<And>k. k + 2 \<le> 52 \<Longrightarrow>
      decode_int (slice readbuff (off + int k) (off + int k + 2)) =
        uint (readbuff ! (nat off + k)) + 256 * uint (readbuff ! (nat off + k + 1))"
    using assms by (intro descriptor_length) simp_all
  have ofs: "\<And>k. k + 8 \<le> 52 \<Longrightarrow>
      decode_int (slice readbuff (off + int k + 2 + 2) (off + int k + 2 + 2 + 4)) =
        uint (readbuff ! (nat off + k + 4)) + 256 * uint (readbuff ! (nat off + k + 5))
          + 65536 * uint (readbuff ! (nat off + k + 6))
          + 16777216 * uint (readbuff ! (nat off + k + 7))"
    using assms by (intro descriptor_offset) simp_all
  have l: "ntlm_length readbuff off =
           uint (readbuff ! (nat off + 20)) + 256 * uint (readbuff ! (nat off + 21))"
     "domain_length readbuff off =
           uint (readbuff ! (nat off + 28)) + 256 * uint (readbuff ! (nat off + 29))"
     "username_length readbuff off =
           uint (readbuff ! (nat off + 36)) + 256 * uint (readbuff ! (nat off + 37))"
     "workstation_length readbuff off =
           uint (readbuff ! (nat off + 44)) + 256 * uint (readbuff ! (nat off + 45))"
    using len [of 20] len [of 28] len [of 36] len [of 44]
    by (simp_all add: ntlm_length_def domain_length_def username_length_def
        workstation_length_def ac_simps)
  have o: "ntlm_offset readbuff off =
           uint (readbuff ! (nat off + 24)) + 256 * uint (readbuff ! (nat off + 25))
             + 65536 * uint (readbuff ! (nat off + 26)) + 16777216 * uint (readbuff ! (nat off + 27))"
     "domain_offset readbuff off =
           uint (readbuff ! (nat off + 32)) + 256 * uint (readbuff ! (nat off + 33))
             + 65536 * uint (readbuff ! (nat off + 34)) + 16777216 * uint (readbuff ! (nat off + 35))"
     "username_offset readbuff off =
           uint (readbuff ! (nat off + 40)) + 256 * uint (readbuff ! (nat off + 41))
             + 65536 * uint (readbuff ! (nat off + 42)) + 16777216 * uint (readbuff ! (nat off + 43))"
     "workstation_offset readbuff off =
           uint (readbuff ! (nat off + 48)) + 256 * uint (readbuff ! (nat off + 49))
             + 65536 * uint (readbuff ! (nat off + 50)) + 16777216 * uint (readbuff ! (nat off + 51))"
    using ofs [of 20] ofs [of 28] ofs [of 36] ofs [of 44]
    by (simp_all add: ntlm_offset_def domain_offset_def username_offset_def
        workstation_offset_def ac_simps)
  note r = field_ranges [OF assms(1), of readbuff]
  have sp: "16 \<le> ntlm_length readbuff off \<longrightarrow>
            ntlmv2_response readbuff off =
              take (nat (ntlm_length readbuff off - 16))
                (drop (nat (off + ntlm_offset readbuff off) + 16) readbuff)
          \<and> ntproofstr readbuff off @ ntlmv2_response readbuff off =
              take (nat (ntlm_length readbuff off))
                (drop (nat (off + ntlm_offset readbuff off)) readbuff)"
    using response_split [OF assms(1), of readbuff] by blast
  show ?thesis
    by (intro conjI l o r sp)
qed

lemma length_shifted_buffer: "length shifted_buffer = 203"
  by (simp add: shifted_buffer_def spec_buffer_def length_type2_message length_type3_message)

theorem type3_field_decoding_witness:
  "(0::int) \<le> 101 \<and> nat 101 + 52 \<le> length shifted_buffer
   \<and> 16 \<le> ntlm_length shifted_buffer 101
   \<and> username_length shifted_buffer 101 = 6 \<and> username_offset shifted_buffer 101 = 64
   \<and> username shifted_buffer 101 = take 6 (drop 165 shifted_buffer)
   \<and> ntproofstr shifted_buffer 101 @ ntlmv2_response shifted_buffer 101
       = take 26 (drop 177 shifted_buffer)"
proof -
  have h1: "(0::int) \<le> 101" by simp
  have h2: "nat 101 + 52 \<le> length shifted_buffer" by (simp add: length_shifted_buffer)
  have n: "ntlm_length shifted_buffer 101 = 26" by (rule shifted_fields)
  have ul: "username_length shifted_buffer 101 = 6" 
    by (simp add: username_length_def shifted_eval)
  have uo: "username_offset shifted_buffer 101 = 64" 
    by (simp add: username_offset_def shifted_eval)
  have no: "ntlm_offset shifted_buffer 101 = 76" 
    by (simp add: ntlm_offset_def shifted_eval)
  note t = type3_field_decoding [OF h1 h2]
  have u: "username shifted_buffer 101 =
      take (nat (username_length shifted_buffer 101))
        (drop (nat (101 + username_offset shifted_buffer 101)) shifted_buffer)"
    using t by blast
  have r: "16 \<le> ntlm_length shifted_buffer 101 \<longrightarrow>
      ntproofstr shifted_buffer 101 @ ntlmv2_response shifted_buffer 101 =
        take (nat (ntlm_length shifted_buffer 101))
          (drop (nat (101 + ntlm_offset shifted_buffer 101)) shifted_buffer)"
    using t by blast
  show ?thesis
    using u r h2 by (simp add: n ul uo no)
qed

text \<open>
  C10.  When the 16 bytes at \<open>off\<close> plus the response's offset lie inside the buffer,
  the proof value is exactly these 16 bytes, whatever length the descriptor declares;
  for a declared length below 16 the remainder is empty.
\<close>

theorem nt_proof_ignores_declared_length:
  assumes "0 \<le> off" "nat (off + ntlm_offset readbuff off) + 16 \<le> length readbuff"
  shows "ntproofstr readbuff off = take 16 (drop (nat (off + ntlm_offset readbuff off)) readbuff)
       \<and> length (ntproofstr readbuff off) = 16
       \<and> (ntlm_length readbuff off < 16 \<longrightarrow> ntlmv2_response readbuff off = [])"
  using assms field_ranges(4) [OF assms(1), of readbuff] short_response_empty [OF assms(1), of readbuff]
  by simp

lemma short_response_fields:
  "ntlm_length short_response_buffer 101 = 4"
  "ntlm_offset short_response_buffer 101 = 76"
  by (simp_all add: ntlm_length_def ntlm_offset_def short_response_buffer_def
      short_response_message_def type2_message_list slice_nonneg)

lemma length_short_response_buffer: "length short_response_buffer = 203"
  by (simp add: short_response_buffer_def short_response_message_def length_type2_message)

theorem nt_proof_ignores_declared_length_witness:
  "(0::int) \<le> 101
   \<and> nat (101 + ntlm_offset short_response_buffer 101) + 16 \<le> length short_response_buffer
   \<and> ntlm_length short_response_buffer 101 = 4
   \<and> ntproofstr short_response_buffer 101 =
        [0xAA, 0xAA, 0xAA, 0xAA, 0xAA, 0xAA, 0xAA, 0xAA, 0xAA, 0xAA, 0xAA, 0xAA, 0xAA, 0xAA, 0xAA, 0xAA]
   \<and> length (ntproofstr short_response_buffer 101) = 16
   \<and> ntlmv2_response short_response_buffer 101 = []"
proof -
  have h1: "(0::int) \<le> 101" by simp
  have h2: "nat (101 + ntlm_offset short_response_buffer 101) + 16 \<le> length short_response_buffer"
    by (simp add: short_response_fields length_short_response_buffer)
  have d: "take 16 (drop 177 short_response_buffer) =
      [0xAA, 0xAA, 0xAA, 0xAA, 0xAA, 0xAA, 0xAA, 0xAA, 0xAA, 0xAA, 0xAA, 0xAA, 0xAA, 0xAA, 0xAA, 0xAA]"
    by (simp add: short_response_buffer_def short_response_message_def type2_message_list)
  show ?thesis
    using nt_proof_ignores_declared_length [OF h1 h2] h2 d
    by (simp add: short_response_fields)
qed

section \<open>The hash record\<close>


















section \<open>The pending challenge\<close>



section \<open>Decoding the text fields\<close>


















section \<open>Messages that end after the buffer\<close>
























section \<open>The order of the occurrences\<close>

text \<open>
  From an offset above 0 the loop moves strictly forward, by at least the length of the
  signature, and passes no occurrence: a signature cannot begin inside another one, and
  the search returns the first occurrence at or after its start.
\<close>

lemma advance_increases:
  assumes "0 < off"
  shows "advance readbuff off = -1 \<or> off + 8 \<le> advance readbuff off"
  using advance_result [of off readbuff] assms by auto

lemma advance_least:
  assumes "0 \<le> off" "advance readbuff off = int p"
    and "(if off \<noteq> 0 then nat off + 8 else 0) \<le> q" "q < p"
  shows "take 8 (drop q readbuff) \<noteq> ntlmssp_sig"
proof -
  let ?start = "if off \<noteq> 0 then off + int (length ntlmssp_sig) else off"
  have s: "0 \<le> ?start" using assms(1) by simp
  have n: "nat ?start = (if off \<noteq> 0 then nat off + 8 else 0)"
    using assms(1) by (simp add: sig_length nat_add_distrib)
  have f: "find2 readbuff ntlmssp_sig ?start = int p"
    using assms(2) by (simp add: advance_def)
  then have c: "nat ?start + length ntlmssp_sig \<le> length readbuff"
    unfolding find2_nonneg [OF s] by (simp split: if_splits)
  from f have "find_scan ntlmssp_sig readbuff (nat ?start)
      (Suc (length readbuff - (nat ?start + length ntlmssp_sig))) = int p"
    unfolding find2_nonneg [OF s] using c by simp
  from find_scan_least [OF this, of q] assms(3,4) n
  show ?thesis by (simp add: sig_length)
qed

lemma advance_none:
  assumes "0 \<le> off" "advance readbuff off = -1"
    and "(if off \<noteq> 0 then nat off + 8 else 0) \<le> q"
  shows "take 8 (drop q readbuff) \<noteq> ntlmssp_sig"
proof (cases "q + 8 \<le> length readbuff")
  case False
  show ?thesis
  proof
    assume "take 8 (drop q readbuff) = ntlmssp_sig"
    then have "length (take 8 (drop q readbuff)) = 8" by (simp only: sig_length)
    with False show False by simp
  qed
next
  case True
  let ?start = "if off \<noteq> 0 then off + int (length ntlmssp_sig) else off"
  have s: "0 \<le> ?start" using assms(1) by simp
  have n: "nat ?start = (if off \<noteq> 0 then nat off + 8 else 0)"
    using assms(1) by (simp add: sig_length nat_add_distrib)
  have c: "nat ?start + length ntlmssp_sig \<le> length readbuff"
    using True assms(3) n by (simp add: sig_length)
  have "find2 readbuff ntlmssp_sig ?start = -1"
    using assms(2) by (simp add: advance_def)
  then have "find_scan ntlmssp_sig readbuff (nat ?start)
      (Suc (length readbuff - (nat ?start + length ntlmssp_sig))) = -1"
    unfolding find2_nonneg [OF s] using c by simp
  from find_scan_none [OF this, of q] assms(3) n True
  show ?thesis by (simp add: sig_length)
qed

lemma take_drop_nth:
  assumes "take n (drop q xs) = ys" "k < length ys"
  shows "xs ! (q + k) = ys ! k"
proof -
  have "k < n" "q + k < length xs" using assms by auto
  then have "take n (drop q xs) ! k = xs ! (q + k)" by simp
  with assms(1) show ?thesis by simp
qed

lemma sig_no_overlap:
  assumes "take 8 (drop p xs) = ntlmssp_sig" "0 < d" "d < 8"
  shows "take 8 (drop (p + d) xs) \<noteq> ntlmssp_sig"
proof
  assume b: "take 8 (drop (p + d) xs) = ntlmssp_sig"
  have "xs ! (p + d) = ntlmssp_sig ! d"
    using take_drop_nth [OF assms(1), of d] assms(3) by (simp add: sig_length)
  moreover have "xs ! (p + d + 0) = ntlmssp_sig ! 0"
    by (rule take_drop_nth [OF b]) (simp add: sig_length)
  ultimately have e: "ntlmssp_sig ! d = ntlmssp_sig ! 0" by simp
  from assms(2,3) have "d = 1 \<or> d = 2 \<or> d = 3 \<or> d = 4 \<or> d = 5 \<or> d = 6 \<or> d = 7" by arith
  with e show False by (auto simp: ntlmssp_sig_def)
qed

lemma no_occurrence_skipped:
  assumes "0 < off" "take 8 (drop (nat off) readbuff) = ntlmssp_sig"
    and "advance readbuff off = int p" "nat off < q" "q < p"
  shows "take 8 (drop q readbuff) \<noteq> ntlmssp_sig"
proof (cases "q < nat off + 8")
  case True
  define d where "d = q - nat off"
  have d: "q = nat off + d" "0 < d" "d < 8"
    using True assms(4) by (simp_all add: d_def)
  from sig_no_overlap [OF assms(2) d(2,3)] d(1) show ?thesis by simp
next
  case False
  with advance_least [of off readbuff p q] assms show ?thesis by simp
qed

lemma back_to_back_advance: "advance back_to_back 0 = 0"
  by (rule advance_zero)
     (simp add: back_to_back_def ntlmssp_type_1_def ntlmssp_sig_def)

lemma back_to_back_iteration:
  "loop_body back_to_back outfile verbose True
     \<lparr>offset = 0, server_challenge = c, stdout = out, files = fs\<rparr>
   = Inr \<lparr>offset = 0, server_challenge = c, stdout = out, files = fs\<rparr>"
proof -
  have adv: "advance back_to_back
      (offset \<lparr>offset = 0, server_challenge = c, stdout = out, files = fs\<rparr>) = 0"
    using back_to_back_advance by simp
  have t: "take 12 (drop (nat 0) back_to_back) = ntlmssp_type_1"
    by (simp add: back_to_back_def ntlmssp_type_1_def)
  show ?thesis
    unfolding loop_body_at [OF adv order_refl] t by (simp add: type1_branch_def)
qed

lemma back_to_back_diverges:
  "searchCaptureFile back_to_back outfile verbose quiet 0 fs = None"
  unfolding searchCaptureFile_def
  by (rule while_loop_diverges)
     (simp_all add: back_to_back_def ntlmssp_type_1_def ntlmssp_sig_def ntlmssp_type_3_def)

text \<open>
  C4.  The offsets of the occurrences are expected to increase strictly, no occurrence
  being skipped.  On the buffer with two Type 1 heads, at offsets 0 and 12, the offset
  found after the occurrence at 0 is 0 again: an iteration started at offset 0 ends in
  the state it started in, the occurrence at offset 12 is never reached, and the call
  never returns.
\<close>

theorem back_to_back_second_message_never_reached:
  "take 8 (drop 12 back_to_back) = ntlmssp_sig
   \<and> advance back_to_back 0 = 0
   \<and> loop_body back_to_back outfile verbose True
        \<lparr>offset = 0, server_challenge = c, stdout = out, files = fs\<rparr>
      = Inr \<lparr>offset = 0, server_challenge = c, stdout = out, files = fs\<rparr>
   \<and> searchCaptureFile back_to_back outfile verbose quiet 0 fs = None"
  using back_to_back_advance back_to_back_iteration back_to_back_diverges
  by (simp add: back_to_back_def ntlmssp_type_1_def ntlmssp_sig_def)

end
